theory Spec2Isabelle
  imports Main
begin

section \<open>JavaScript string operations used by \<open>src/config.ts\<close>\<close>

text \<open>
  Urls and glob patterns are JavaScript strings; they are modelled as \<open>string\<close>
  (lists of characters). Positions are \<open>int\<close>, as \<open>lastIndexOf\<close> returns \<open>-1\<close>
  when nothing is found, and \<open>slice\<close> and \<open>substring\<close> clamp their arguments
  the way ECMAScript does.
\<close>

definition startsWith :: "string \<Rightarrow> string \<Rightarrow> bool" where
  "startsWith s p = (take (length p) s = p)"

definition endsWith :: "string \<Rightarrow> string \<Rightarrow> bool" where
  "endsWith s p = (length p \<le> length s \<and> drop (length s - length p) s = p)"

definition includes_str :: "string \<Rightarrow> string \<Rightarrow> bool" where
  "includes_str s p = list_ex (\<lambda>i. take (length p) (drop i s) = p) [0..<Suc (length s)]"

definition lastIndexOf :: "string \<Rightarrow> string \<Rightarrow> int" where
  "lastIndexOf s p =
     (case filter (\<lambda>i. take (length p) (drop i s) = p) (rev [0..<Suc (length s)]) of
        [] \<Rightarrow> - 1
      | i # _ \<Rightarrow> int i)"

definition slice :: "string \<Rightarrow> int \<Rightarrow> int option \<Rightarrow> string" where
  "slice s start fin =
     (let len = int (length s);
          from = (if start < 0 then max (len + start) 0 else min start len);
          to = (case fin of
                  None \<Rightarrow> len
                | Some e \<Rightarrow> if e < 0 then max (len + e) 0 else min e len)
      in take (nat (to - from)) (drop (nat from) s))"

definition substring :: "string \<Rightarrow> int \<Rightarrow> int \<Rightarrow> string" where
  "substring s start fin =
     (let len = int (length s);
          a = max 0 (min start len);
          b = max 0 (min fin len)
      in take (nat (max a b - min a b)) (drop (nat (min a b)) s))"

text \<open>JavaScript truthiness of an optional string: \<open>undefined\<close> and \<open>''\<close> are falsy.\<close>

definition truthy :: "string option \<Rightarrow> bool" where
  "truthy v = (case v of None \<Rightarrow> False | Some s \<Rightarrow> s \<noteq> [])"

section \<open>Glob policy: \<open>buildGlobPatterns\<close> and \<open>buildGlobIgnores\<close>\<close>

text \<open>
  Both functions push onto the array they are given and return that same array; the
  model returns the contents of the returned array. An absent argument is \<open>None\<close>;
  an array, even an empty one, is truthy.
\<close>

definition buildGlobPatterns :: "string list option \<Rightarrow> string list" where
  "buildGlobPatterns globPatterns =
     (case globPatterns of
        Some g0 \<Rightarrow>
          (let g1 = (if \<not> list_ex (\<lambda>g. startsWith g ''prerendered/'') g0
                     then g0 @ [''prerendered/**/*.{html,json,js}''] else g0);
               g2 = (if \<not> list_ex (\<lambda>g. startsWith g ''client/'') g1
                     then g1 @ [''client/**/*.{js,css,ico,png,svg,webp,webmanifest}''] else g1);
               g3 = (if \<not> list_ex (\<lambda>g. includes_str g ''webmanifest'') g2
                     then g2 @ [''client/*.webmanifest''] else g2)
           in g3)
      | None \<Rightarrow>
          [''client/**/*.{js,css,ico,png,svg,webp,webmanifest}'',
           ''prerendered/**/*.{html,json,js}''])"

definition buildGlobIgnores :: "string list option \<Rightarrow> string list" where
  "buildGlobIgnores globIgnores =
     (case globIgnores of
        Some g0 \<Rightarrow>
          (if \<not> list_ex (\<lambda>g. startsWith g ''server/'') g0 then g0 @ [''server/**''] else g0)
      | None \<Rightarrow> [''server/**''])"

section \<open>The manifest transform\<close>

subsection \<open>Data\<close>

text \<open>
  A manifest entry is a mutable JavaScript object. The transform assigns to
  \<open>e.url\<close> and returns \<open>e\<close> itself, so entries live in a store: a reference is
  an index into the store, an array of entries is a list of references, and a new
  object is allocated at the end of the store. The type \<open>ManifestEntry\<close> comes from
  \<open>workbox-build\<close>; the fields are those the transform writes when it builds an
  entry (lines 167-171 and 233-237). \<open>size\<close> is named \<open>size_bytes\<close> here.
\<close>

record ManifestEntry =
  url :: string
  revision :: string
  size_bytes :: int

type_synonym ref = nat
type_synonym store = "ManifestEntry list"

text \<open>The value a promise is rejected with.\<close>

datatype error = Error string

text \<open>
  \<open>KitOptions\<close> is declared in \<open>./types\<close>; the fields below are the ones the
  transform reads. \<open>spa\<close> is a boolean or an object with an optional
  \<open>fallbackMapping\<close> and an optional asynchronous \<open>fallbackRevision\<close> function,
  whose promise resolves to a string or rejects.
\<close>

datatype spa_option =
  SpaBool bool
| SpaObject "string option" "(unit \<Rightarrow> error + string) option"

record KitOptions =
  adapterFallback :: "string option"
  trailingSlash :: "string option"
  spa :: "spa_option option"

text \<open>
  What the transform takes from Node: \<open>path.resolve\<close>, the outcome of streaming a
  file (its chunks, or the stream's error event) and the MD5 digest in hex.
\<close>

record node_env =
  resolve :: "string \<Rightarrow> string \<Rightarrow> string"
  createReadStream :: "string \<Rightarrow> error + string list"
  md5hex :: "string \<Rightarrow> string"

subsection \<open>Optional chaining on \<open>options\<close>\<close>

definition opt_adapterFallback :: "KitOptions option \<Rightarrow> string option" where
  "opt_adapterFallback options = (case options of None \<Rightarrow> None | Some k \<Rightarrow> adapterFallback k)"

definition opt_trailingSlash :: "KitOptions option \<Rightarrow> string option" where
  "opt_trailingSlash options = (case options of None \<Rightarrow> None | Some k \<Rightarrow> trailingSlash k)"

definition opt_spa :: "KitOptions option \<Rightarrow> spa_option option" where
  "opt_spa options = (case options of None \<Rightarrow> None | Some k \<Rightarrow> spa k)"

text \<open>Truthiness of \<open>options?.spa\<close>: \<open>true\<close> or any object.\<close>

definition truthy_spa :: "spa_option option \<Rightarrow> bool" where
  "truthy_spa v = (case v of None \<Rightarrow> False | Some (SpaBool b) \<Rightarrow> b | Some (SpaObject m f) \<Rightarrow> True)"

subsection \<open>The locals of lines 103-112\<close>

definition defaultAdapterFallback :: string where
  "defaultAdapterFallback = ''prerendered/fallback.html''"

definition suffixOf :: "KitOptions option \<Rightarrow> string" where
  "suffixOf options = (if opt_trailingSlash options = Some ''always'' then ''/'' else '''')"

definition excludeFallback :: "KitOptions option \<Rightarrow> bool" where
  "excludeFallback options = (\<not> truthy (opt_adapterFallback options))"

definition fallbackOf :: "KitOptions option \<Rightarrow> string" where
  "fallbackOf options =
     (case opt_adapterFallback options of
        None \<Rightarrow> defaultAdapterFallback
      | Some a \<Rightarrow> if a = [] then defaultAdapterFallback else a)"

subsection \<open>The callback of \<open>map\<close>, lines 117-160\<close>

text \<open>Lines 124-131: the stage prefix is cut off, or the default fallback renamed.\<close>

definition resolveUrl :: "string \<Rightarrow> string \<Rightarrow> string" where
  "resolveUrl fallback u =
     (if startsWith u ''client/'' then slice u 7 None
      else if startsWith u ''prerendered/dependencies/'' then slice u 25 None
      else if startsWith u ''prerendered/pages/'' then slice u 18 None
      else if u = defaultAdapterFallback then fallback
      else u)"

text \<open>Lines 134-135: one leading slash is cut off.\<close>

definition stripLeadingSlash :: "string \<Rightarrow> string" where
  "stripLeadingSlash u = (if startsWith u ''/'' then slice u 1 None else u)"

text \<open>Lines 133-155: an url ending in \<open>.html\<close> becomes a directory-style url.\<close>

definition prettyUrl :: "string \<Rightarrow> string \<Rightarrow> string \<Rightarrow> string" where
  "prettyUrl base suffix u0 =
     (if endsWith u0 ''.html'' then
        (let u = stripLeadingSlash u0 in
         if u = ''index.html'' then base
         else
           (let idx = lastIndexOf u ''/'' in
            if idx > - 1 then
              (if endsWith u ''/index.html'' then slice u 0 (Some idx) @ suffix
               else substring u 0 (lastIndexOf u ''.'') @ suffix)
            else substring u 0 (lastIndexOf u ''.'') @ suffix))
      else u0)"

definition transformUrl :: "string \<Rightarrow> string \<Rightarrow> string \<Rightarrow> string \<Rightarrow> string" where
  "transformUrl base suffix fallback u = prettyUrl base suffix (resolveUrl fallback u)"

text \<open>
  \<open>map\<close> calls the callback on each element in order; each call reads the entry,
  assigns its new url (line 157) and returns the same reference (line 159).
\<close>

fun mapUrls :: "(string \<Rightarrow> string) \<Rightarrow> ref list \<Rightarrow> store \<Rightarrow> store" where
  "mapUrls f [] h = h"
| "mapUrls f (r # rs) h = mapUrls f rs (h[r := (h ! r)\<lparr>url := f (url (h ! r))\<rparr>])"

subsection \<open>\<open>buildManifestEntry\<close>, lines 216-240\<close>

definition buildManifestEntry :: "node_env \<Rightarrow> string \<Rightarrow> string \<Rightarrow> error + ManifestEntry" where
  "buildManifestEntry env u path =
     (case createReadStream env path of
        Inl err \<Rightarrow> Inl err
      | Inr chunks \<Rightarrow> Inr \<lparr>url = u, revision = md5hex env (concat chunks), size_bytes = 0\<rparr>)"

subsection \<open>\<open>createManifestTransform\<close>, lines 96-186\<close>

text \<open>
  Line 162: the synthetic fallback entry is added when both \<open>options?.spa\<close> and
  \<open>options?.adapterFallback\<close> are truthy; the result holds the two values.
\<close>

definition spaFallback :: "KitOptions option \<Rightarrow> (spa_option \<times> string) option" where
  "spaFallback options =
     (case opt_spa options of
        None \<Rightarrow> None
      | Some sp \<Rightarrow>
          (case opt_adapterFallback options of
             None \<Rightarrow> None
           | Some af \<Rightarrow> if truthy_spa (Some sp) \<and> truthy (Some af) then Some (sp, af) else None))"

text \<open>Lines 163-165: the url of the synthetic fallback entry.\<close>

definition fallbackName :: "spa_option \<Rightarrow> string \<Rightarrow> string" where
  "fallbackName sp af =
     (case sp of
        SpaObject (Some m) f \<Rightarrow> if m \<noteq> [] then m else af
      | _ \<Rightarrow> af)"

text \<open>Lines 166-178: the synthetic entry, or the error its revision fails with.\<close>

definition fallbackEntry :: "node_env \<Rightarrow> string \<Rightarrow> spa_option \<Rightarrow> string \<Rightarrow> error + ManifestEntry" where
  "fallbackEntry env outDir sp af =
     (case sp of
        SpaObject m (Some fallbackRevision) \<Rightarrow>
          (case fallbackRevision () of
             Inl err \<Rightarrow> Inl err
           | Inr rv \<Rightarrow> Inr \<lparr>url = fallbackName sp af, revision = rv, size_bytes = 0\<rparr>)
      | _ \<Rightarrow>
          buildManifestEntry env (fallbackName sp af)
            (resolve env outDir ''client/_app/version.json''))"

text \<open>Lines 181-184: the entries named like the web manifest are filtered out.\<close>

definition returnManifest :: "string option \<Rightarrow> ref list \<Rightarrow> store \<Rightarrow> ref list" where
  "returnManifest webManifestName manifest h =
     (case webManifestName of
        None \<Rightarrow> manifest
      | Some n \<Rightarrow> if n = [] then manifest else filter (\<lambda>r. url (h ! r) \<noteq> n) manifest)"

text \<open>Line 116: the array \<open>filter\<close> returns, read from the store as it is given.\<close>

definition keptEntries :: "KitOptions option \<Rightarrow> ref list \<Rightarrow> store \<Rightarrow> ref list" where
  "keptEntries options entries h =
     filter (\<lambda>r. \<not> (excludeFallback options \<and> url (h ! r) = defaultAdapterFallback)) entries"

text \<open>
  The transform returns the manifest (a list of references) or the error the promise
  is rejected with, and the store as it has left it in either case. \<open>map\<close> returns
  a new array holding the references of \<open>kept\<close>; \<open>push\<close> allocates the synthetic
  entry at the end of the store.
\<close>

definition createManifestTransform ::
  "node_env \<Rightarrow> string \<Rightarrow> string \<Rightarrow> string option \<Rightarrow> KitOptions option \<Rightarrow>
   ref list \<Rightarrow> store \<Rightarrow> (error + ref list) \<times> store" where
  "createManifestTransform env base outDir webManifestName options entries h =
     (let kept = keptEntries options entries h;
          h1 = mapUrls (transformUrl base (suffixOf options) (fallbackOf options)) kept h
      in case spaFallback options of
           Some (sp, af) \<Rightarrow>
             (case fallbackEntry env outDir sp af of
                Inl err \<Rightarrow> (Inl err, h1)
              | Inr e \<Rightarrow>
                  (Inr (returnManifest webManifestName (kept @ [length h1]) (h1 @ [e])), h1 @ [e]))
         | None \<Rightarrow> (Inr (returnManifest webManifestName kept h1), h1))"

subsection \<open>Well-formed input\<close>

text \<open>
  The array the transform is given holds live objects, each once: every reference
  points into the store and no reference occurs twice. (With an object twice in the
  array the callback would rewrite its url twice.)
\<close>

definition valid_entries :: "ref list \<Rightarrow> store \<Rightarrow> bool" where
  "valid_entries entries h = (distinct entries \<and> list_all (\<lambda>r. r < length h) entries)"

subsection \<open>Sample values\<close>

definition sampleEntry :: "string \<Rightarrow> ManifestEntry" where
  "sampleEntry u = \<lparr>url = u, revision = ''r1'', size_bytes = 10\<rparr>"

definition sampleEnv :: node_env where
  "sampleEnv =
     \<lparr>resolve = (\<lambda>a b. a @ ''/'' @ b),
      createReadStream = (\<lambda>p. Inr [''1700000000'']),
      md5hex = (\<lambda>s. ''00'' @ s)\<rparr>"

definition missingEnv :: node_env where
  "missingEnv =
     \<lparr>resolve = (\<lambda>a b. a @ ''/'' @ b),
      createReadStream = (\<lambda>p. Inl (Error ''ENOENT'')),
      md5hex = (\<lambda>s. ''00'' @ s)\<rparr>"

definition kitOptions :: "string option \<Rightarrow> string option \<Rightarrow> spa_option option \<Rightarrow> KitOptions option" where
  "kitOptions af ts sp = Some \<lparr>adapterFallback = af, trailingSlash = ts, spa = sp\<rparr>"

definition sampleStore :: store where
  "sampleStore =
     [sampleEntry ''client/prerendered/pages/a.html'',
      sampleEntry ''prerendered/dependencies/blog/__data.json'',
      sampleEntry ''prerendered/pages/about.html'',
      sampleEntry ''prerendered/fallback.html'',
      sampleEntry ''robots.txt'']"

section \<open>Facts about the string operations\<close>

lemma startsWith_append: "startsWith (p @ r) p"
  by (simp add: startsWith_def)

lemma startsWith_iff: "startsWith s p \<longleftrightarrow> (\<exists>r. s = p @ r)"
  unfolding startsWith_def
  by (metis append_eq_conv_conj append_take_drop_id)

lemma endsWith_iff: "endsWith s p \<longleftrightarrow> (\<exists>a. s = a @ p)"
  unfolding endsWith_def
  by (metis append_eq_conv_conj append_take_drop_id diff_add_inverse2 le_add2 length_append)

lemma endsWith_append: "endsWith (a @ p) p"
  by (simp add: endsWith_def)

lemma slice_from: "0 \<le> n \<Longrightarrow> slice s n None = drop (nat n) s"
  by (auto simp: slice_def Let_def min_def)

lemma slice_prefix: "n = int (length p) \<Longrightarrow> slice (p @ r) n None = r"
  by (simp add: slice_from)

lemma slice_to: "0 \<le> i \<Longrightarrow> slice s 0 (Some i) = take (nat i) s"
  by (auto simp: slice_def Let_def min_def)

lemma substring_to: "0 \<le> i \<Longrightarrow> substring s 0 i = take (nat i) s"
  by (auto simp: substring_def Let_def min_def max_def)

lemma filter_rev_upt_greatest:
  "P i \<Longrightarrow> i \<le> n \<Longrightarrow> (\<forall>j. i < j \<and> j \<le> n \<longrightarrow> \<not> P j) \<Longrightarrow>
   \<exists>rest. filter P (rev [0..<Suc n]) = i # rest"
proof (induction n)
  case 0
  then show ?case by simp
next
  case (Suc n)
  show ?case
  proof (cases "i = Suc n")
    case True
    with Suc.prems show ?thesis by simp
  next
    case False
    with Suc.prems have le: "i \<le> n" and notP: "\<not> P (Suc n)" by auto
    from Suc.prems le have "\<forall>j. i < j \<and> j \<le> n \<longrightarrow> \<not> P j" by auto
    with Suc.IH Suc.prems(1) le obtain rest where "filter P (rev [0..<Suc n]) = i # rest"
      by blast
    with notP show ?thesis by simp
  qed
qed

lemma filter_rev_upt_none:
  "(\<forall>j. j \<le> n \<longrightarrow> \<not> P j) \<Longrightarrow> filter P (rev [0..<Suc n]) = []"
  by (induction n) auto

lemma take1_drop_char:
  "(take (Suc 0) (drop i s) = [c]) \<longleftrightarrow> (i < length s \<and> s ! i = c)"
proof (cases "i < length s")
  case True
  then have "drop i s = s ! i # drop (Suc i) s" by (simp add: Cons_nth_drop_Suc)
  with True show ?thesis by simp
next
  case False
  then show ?thesis by simp
qed

lemma lastIndexOf_pred:
  "(take (length [c]) (drop i s) = [c]) \<longleftrightarrow> (i < length s \<and> s ! i = c)"
  using take1_drop_char[of i s c] by simp

lemma lastIndexOf_eq:
  "lastIndexOf s [c] =
     (case filter (\<lambda>i. i < length s \<and> s ! i = c) (rev [0..<Suc (length s)]) of
        [] \<Rightarrow> - 1 | i # _ \<Rightarrow> int i)"
  unfolding lastIndexOf_def lastIndexOf_pred ..

lemma lastIndexOf_char:
  assumes "c \<notin> set b"
  shows "lastIndexOf (a @ c # b) [c] = int (length a)"
proof -
  let ?s = "a @ c # b"
  let ?P = "\<lambda>i. i < length ?s \<and> ?s ! i = c"
  have here: "?P (length a)" by simp
  have after: "\<forall>j. length a < j \<and> j \<le> length ?s \<longrightarrow> \<not> ?P j"
  proof (intro allI impI)
    fix j assume j: "length a < j \<and> j \<le> length ?s"
    show "\<not> ?P j"
    proof
      assume "?P j"
      with j have "b ! (j - Suc (length a)) = c" "j - Suc (length a) < length b"
        by (auto simp: nth_append nth_Cons')
      with assms show False by (metis nth_mem)
    qed
  qed
  have "length a \<le> length ?s" by simp
  from filter_rev_upt_greatest[of ?P "length a" "length ?s", OF here this after]
  obtain rest where "filter ?P (rev [0..<Suc (length ?s)]) = length a # rest" by blast
  then show ?thesis unfolding lastIndexOf_eq by simp
qed

lemma lastIndexOf_none:
  assumes "c \<notin> set s"
  shows "lastIndexOf s [c] = - 1"
proof -
  let ?P = "\<lambda>i. i < length s \<and> s ! i = c"
  have "\<forall>j. j \<le> length s \<longrightarrow> \<not> ?P j"
    using assms by (metis nth_mem)
  then have "filter ?P (rev [0..<Suc (length s)]) = []" by (rule filter_rev_upt_none)
  then show ?thesis unfolding lastIndexOf_eq by simp
qed

section \<open>Facts about the callback\<close>

lemma resolveUrl_client: "resolveUrl fb (''client/'' @ r) = r"
  by (simp add: resolveUrl_def startsWith_def slice_from)

lemma resolveUrl_dependencies: "resolveUrl fb (''prerendered/dependencies/'' @ r) = r"
  by (simp add: resolveUrl_def startsWith_def slice_from)

lemma resolveUrl_pages: "resolveUrl fb (''prerendered/pages/'' @ r) = r"
  by (simp add: resolveUrl_def startsWith_def slice_from)

lemma resolveUrl_fallback: "resolveUrl fb ''prerendered/fallback.html'' = fb"
  by (simp add: resolveUrl_def startsWith_def defaultAdapterFallback_def)

lemma resolveUrl_other:
  "\<not> startsWith u ''client/'' \<Longrightarrow> \<not> startsWith u ''prerendered/dependencies/'' \<Longrightarrow>
   \<not> startsWith u ''prerendered/pages/'' \<Longrightarrow> u \<noteq> ''prerendered/fallback.html'' \<Longrightarrow>
   resolveUrl fb u = u"
  by (simp add: resolveUrl_def defaultAdapterFallback_def)

lemma stripLeadingSlash_eq: "stripLeadingSlash u = (if startsWith u ''/'' then drop 1 u else u)"
  by (simp add: stripLeadingSlash_def slice_from)

lemma endsWith_html_strip: "endsWith u ''.html'' \<Longrightarrow> endsWith (stripLeadingSlash u) ''.html''"
proof -
  assume "endsWith u ''.html''"
  then obtain a where u: "u = a @ ''.html''" by (auto simp: endsWith_iff)
  show ?thesis
  proof (cases "startsWith u ''/''")
    case False
    then show ?thesis by (simp add: stripLeadingSlash_eq u endsWith_append)
  next
    case True
    then obtain a' where "a = CHR ''/'' # a'"
      unfolding u by (cases a) (auto simp: startsWith_def)
    then have "stripLeadingSlash u = a' @ ''.html''"
      using True by (simp add: stripLeadingSlash_eq u)
    then show ?thesis by (simp add: endsWith_append)
  qed
qed

lemma lastIndexOf_slash_index: "lastIndexOf (b @ ''/index.html'') ''/'' = int (length b)"
  using lastIndexOf_char[of "CHR ''/''" "''index.html''" b] by simp

lemma lastIndexOf_dot_html: "lastIndexOf (a @ ''.html'') ''.'' = int (length a)"
  using lastIndexOf_char[of "CHR ''.''" "''html''" a] by simp

lemma prettyUrl_not_html: "\<not> endsWith u ''.html'' \<Longrightarrow> prettyUrl base sfx u = u"
  by (simp add: prettyUrl_def)

lemma prettyUrl_root:
  "endsWith u ''.html'' \<Longrightarrow> stripLeadingSlash u = ''index.html'' \<Longrightarrow> prettyUrl base sfx u = base"
  by (simp add: prettyUrl_def)

lemma prettyUrl_index:
  "endsWith u ''.html'' \<Longrightarrow> stripLeadingSlash u = b @ ''/index.html'' \<Longrightarrow> prettyUrl base sfx u = b @ sfx"
  by (simp add: prettyUrl_def Let_def lastIndexOf_slash_index endsWith_append slice_to)

lemma prettyUrl_page:
  "endsWith u ''.html'' \<Longrightarrow> stripLeadingSlash u = a @ ''.html'' \<Longrightarrow> stripLeadingSlash u \<noteq> ''index.html'' \<Longrightarrow>
   \<not> endsWith (stripLeadingSlash u) ''/index.html'' \<Longrightarrow> prettyUrl base sfx u = a @ sfx"
  by (simp add: prettyUrl_def Let_def lastIndexOf_dot_html substring_to)

section \<open>Facts about the store and the transform\<close>

lemma length_mapUrls: "length (mapUrls f rs h) = length h"
  by (induction rs arbitrary: h) simp_all

lemma mapUrls_notin: "r \<notin> set rs \<Longrightarrow> mapUrls f rs h ! r = h ! r"
  by (induction rs arbitrary: h) auto

lemma mapUrls_in:
  "distinct rs \<Longrightarrow> r \<in> set rs \<Longrightarrow> r < length h \<Longrightarrow>
   mapUrls f rs h ! r = (h ! r)\<lparr>url := f (url (h ! r))\<rparr>"
proof (induction rs arbitrary: h)
  case Nil
  then show ?case by simp
next
  case (Cons x rs)
  show ?case
  proof (cases "r = x")
    case True
    with Cons.prems have "r \<notin> set rs" by simp
    then show ?thesis using True Cons.prems(3) by (simp add: mapUrls_notin)
  next
    case False
    with Cons.prems have "r \<in> set rs" "distinct rs" by auto
    then show ?thesis using False Cons.prems(3) Cons.IH by simp
  qed
qed

lemma set_keptEntries:
  "set (keptEntries options entries h) =
     {r \<in> set entries. \<not> (excludeFallback options \<and> url (h ! r) = defaultAdapterFallback)}"
  by (simp add: keptEntries_def)

lemma distinct_keptEntries: "distinct entries \<Longrightarrow> distinct (keptEntries options entries h)"
  by (simp add: keptEntries_def)

lemma set_returnManifest:
  "set (returnManifest wm m h) = {r \<in> set m. \<not> (truthy wm \<and> wm = Some (url (h ! r)))}"
  by (auto simp: returnManifest_def truthy_def split: option.splits)

lemma transform_store:
  "r < length h \<Longrightarrow>
   snd (createManifestTransform env base outDir wm options entries h) ! r =
   mapUrls (transformUrl base (suffixOf options) (fallbackOf options))
     (keptEntries options entries h) h ! r"
  by (simp add: createManifestTransform_def Let_def length_mapUrls nth_append
      split: option.splits sum.splits prod.splits)

lemma transform_entry:
  assumes "distinct entries" and "r < length h"
  shows "snd (createManifestTransform env base outDir wm options entries h) ! r =
     (if r \<in> set (keptEntries options entries h)
      then (h ! r)\<lparr>url := transformUrl base (suffixOf options) (fallbackOf options) (url (h ! r))\<rparr>
      else h ! r)"
  using assms
  by (simp add: transform_store mapUrls_in mapUrls_notin distinct_keptEntries)

lemma transform_out:
  assumes "createManifestTransform env base outDir wm options entries h = (Inr out, h')"
  shows "set out \<subseteq> set (keptEntries options entries h) \<union> {length h}"
  using assms
  by (auto simp: createManifestTransform_def Let_def length_mapUrls set_returnManifest
      split: option.splits sum.splits prod.splits)

lemma transform_no_spa:
  assumes "spaFallback options = None"
  shows "createManifestTransform env base outDir wm options entries h =
    (Inr (returnManifest wm (keptEntries options entries h)
            (mapUrls (transformUrl base (suffixOf options) (fallbackOf options))
               (keptEntries options entries h) h)),
     mapUrls (transformUrl base (suffixOf options) (fallbackOf options))
       (keptEntries options entries h) h)"
  using assms by (simp add: createManifestTransform_def Let_def)

lemma transform_spa:
  assumes "spaFallback options = Some (sp, af)"
  shows "createManifestTransform env base outDir wm options entries h =
    (let kept = keptEntries options entries h;
         h1 = mapUrls (transformUrl base (suffixOf options) (fallbackOf options)) kept h
     in case fallbackEntry env outDir sp af of
          Inl err \<Rightarrow> (Inl err, h1)
        | Inr e \<Rightarrow> (Inr (returnManifest wm (kept @ [length h]) (h1 @ [e])), h1 @ [e]))"
  using assms by (simp add: createManifestTransform_def Let_def length_mapUrls split: sum.splits)

lemma valid_entries_nth: "valid_entries entries h \<Longrightarrow> r \<in> set entries \<Longrightarrow> r < length h"
  by (simp add: valid_entries_def list_all_iff)

lemma valid_entries_distinct: "valid_entries entries h \<Longrightarrow> distinct entries"
  by (simp add: valid_entries_def)

lemma startsWith_strip: "startsWith u p \<Longrightarrow> p @ slice u (int (length p)) None = u"
  by (auto simp: startsWith_iff slice_from)

section \<open>Facts about the baseline glob patterns\<close>

lemma startsWith_client_baseline:
  "startsWith ''client/**/*.{js,css,ico,png,svg,webp,webmanifest}'' ''client/''"
  by code_simp

lemma startsWith_prerendered_baseline: "startsWith ''prerendered/**/*.{html,json,js}'' ''prerendered/''"
  by code_simp

lemma startsWith_server_baseline: "startsWith ''server/**'' ''server/''"
  by code_simp

lemma includes_client_baseline:
  "includes_str ''client/**/*.{js,css,ico,png,svg,webp,webmanifest}'' ''webmanifest''"
  by code_simp

lemma includes_webmanifest_baseline: "includes_str ''client/*.webmanifest'' ''webmanifest''"
  by code_simp

lemma not_startsWith_client_prerendered_baseline:
  "\<not> startsWith ''prerendered/**/*.{html,json,js}'' ''client/''"
  by code_simp

lemma not_includes_prerendered_baseline:
  "\<not> includes_str ''prerendered/**/*.{html,json,js}'' ''webmanifest''"
  by code_simp

section \<open>Facts about the returned manifest\<close>

lemma transform_out_kept:
  assumes "createManifestTransform env base outDir wm options entries h = (Inr out, h')"
    and "r \<in> set out" and "r < length h"
  shows "r \<in> set (keptEntries options entries h)"
  using transform_out[OF assms(1)] assms(2,3) by auto

lemma keptEntries_subset: "r \<in> set (keptEntries options entries h) \<Longrightarrow> r \<in> set entries"
  by (simp add: set_keptEntries)

lemma transform_out_mem:
  assumes "createManifestTransform env base outDir wm options entries h = (Inr out, h')"
    and "r < length h"
  shows "r \<in> set out \<longleftrightarrow>
         r \<in> set (keptEntries options entries h) \<and> \<not> (truthy wm \<and> wm = Some (url (h' ! r)))"
  using assms
  by (auto simp: createManifestTransform_def Let_def length_mapUrls set_returnManifest
      split: option.splits sum.splits prod.splits)

lemma transformUrl_unmatched:
  assumes "\<not> startsWith u ''client/''"
    and "\<not> startsWith u ''prerendered/dependencies/''"
    and "\<not> startsWith u ''prerendered/pages/''"
    and "u \<noteq> ''prerendered/fallback.html''"
    and "\<not> endsWith u ''.html''"
  shows "transformUrl base sfx fb u = u"
  using assms by (simp add: transformUrl_def resolveUrl_other prettyUrl_not_html)

lemma spaFallback_no_override: "\<not> truthy (opt_adapterFallback options) \<Longrightarrow> spaFallback options = None"
  by (auto simp: spaFallback_def split: option.splits)

lemma fallbackOf_override: "opt_adapterFallback options = Some af \<Longrightarrow> af \<noteq> [] \<Longrightarrow> fallbackOf options = af"
  by (simp add: fallbackOf_def)

lemma excludeFallback_override:
  "opt_adapterFallback options = Some af \<Longrightarrow> af \<noteq> [] \<Longrightarrow> \<not> excludeFallback options"
  by (simp add: excludeFallback_def truthy_def)

lemma transformUrl_fallback: "transformUrl base sfx fb ''prerendered/fallback.html'' = prettyUrl base sfx fb"
  by (simp add: transformUrl_def resolveUrl_fallback)

lemma prettyUrl_always:
  assumes "endsWith v ''.html''" and "stripLeadingSlash v \<noteq> ''index.html''"
  shows "endsWith (prettyUrl base ''/'' v) ''/''"
proof -
  from assms(1) have "endsWith (stripLeadingSlash v) ''.html''" by (rule endsWith_html_strip)
  then obtain a where a: "stripLeadingSlash v = a @ ''.html''" by (auto simp: endsWith_iff)
  show ?thesis
  proof (cases "endsWith (stripLeadingSlash v) ''/index.html''")
    case True
    then obtain b where "stripLeadingSlash v = b @ ''/index.html''" by (auto simp: endsWith_iff)
    with assms(1) have "prettyUrl base ''/'' v = b @ ''/''" by (rule prettyUrl_index)
    then show ?thesis by (simp add: endsWith_append)
  next
    case False
    with assms a have "prettyUrl base ''/'' v = a @ ''/''" by (simp add: prettyUrl_page)
    then show ?thesis by (simp add: endsWith_append)
  qed
qed

lemma prettyUrl_default:
  assumes "endsWith v ''.html''" and "stripLeadingSlash v \<noteq> ''index.html''"
    and "\<not> endsWith (stripLeadingSlash v) ''//index.html''"
    and "\<not> endsWith (stripLeadingSlash v) ''/.html''"
  shows "\<not> endsWith (prettyUrl base '''' v) ''/''"
proof -
  from assms(1) have "endsWith (stripLeadingSlash v) ''.html''" by (rule endsWith_html_strip)
  then obtain a where a: "stripLeadingSlash v = a @ ''.html''" by (auto simp: endsWith_iff)
  show ?thesis
  proof (cases "endsWith (stripLeadingSlash v) ''/index.html''")
    case True
    then obtain b where b: "stripLeadingSlash v = b @ ''/index.html''" by (auto simp: endsWith_iff)
    with assms(1) have p: "prettyUrl base '''' v = b @ ''''" by (rule prettyUrl_index)
    show ?thesis
    proof
      assume "endsWith (prettyUrl base '''' v) ''/''"
      with p obtain b' where "b = b' @ ''/''" by (auto simp: endsWith_iff)
      with b have "stripLeadingSlash v = b' @ ''//index.html''" by simp
      with assms(3) show False by (simp add: endsWith_iff)
    qed
  next
    case False
    with assms a have p: "prettyUrl base '''' v = a @ ''''" by (simp add: prettyUrl_page)
    show ?thesis
    proof
      assume "endsWith (prettyUrl base '''' v) ''/''"
      with p obtain a' where "a = a' @ ''/''" by (auto simp: endsWith_iff)
      with a have "stripLeadingSlash v = a' @ ''/.html''" by simp
      with assms(4) show False by (simp add: endsWith_iff)
    qed
  qed
qed

lemma spaFallback_Some:
  "opt_spa options = Some sp \<Longrightarrow> truthy_spa (Some sp) \<Longrightarrow>
   opt_adapterFallback options = Some af \<Longrightarrow> af \<noteq> [] \<Longrightarrow> spaFallback options = Some (sp, af)"
  by (simp add: spaFallback_def truthy_def)

lemma returnManifest_snoc_keep:
  "\<not> (truthy wm \<and> wm = Some (url e)) \<Longrightarrow> length h1 = n \<Longrightarrow>
   returnManifest wm (kept @ [n]) (h1 @ [e]) = returnManifest wm kept (h1 @ [e]) @ [n]"
  by (auto simp: returnManifest_def truthy_def split: option.splits)

lemma returnManifest_snoc_drop:
  "truthy wm \<and> wm = Some (url e) \<Longrightarrow> length h1 = n \<Longrightarrow>
   returnManifest wm (kept @ [n]) (h1 @ [e]) = returnManifest wm kept (h1 @ [e])"
  by (auto simp: returnManifest_def truthy_def split: option.splits)

lemma returnManifest_subset: "set (returnManifest wm m h) \<subseteq> set m"
  by (auto simp: set_returnManifest)

lemma returnManifest_drops_name:
  "truthy wm \<Longrightarrow> wm = Some (url (h ! r)) \<Longrightarrow> r \<notin> set (returnManifest wm m h)"
  by (simp add: set_returnManifest)

lemma buildManifestEntry_error:
  "createReadStream env path = Inl err \<Longrightarrow> buildManifestEntry env u path = Inl err"
  by (simp add: buildManifestEntry_def)

lemma fallbackEntry_url: "fallbackEntry env outDir sp af = Inr e \<Longrightarrow> url e = fallbackName sp af"
  by (auto simp: fallbackEntry_def buildManifestEntry_def split: spa_option.splits option.splits sum.splits)

lemma last_returnManifest_snoc:
  assumes "\<not> (truthy wm \<and> wm = Some (url e))" and "length h1 = n"
  shows "returnManifest wm (kept @ [n]) (h1 @ [e]) \<noteq> [] \<and>
         last (returnManifest wm (kept @ [n]) (h1 @ [e])) = n"
  using returnManifest_snoc_keep[OF assms, of kept] by simp

section \<open>The claims\<close>

subsection \<open>C1: prefix resolution, first match wins\<close>

text \<open>
  Claim C1. For every entry that passes the fallback filter, the url the transform
  stores is the pretty-url rewriting of the resolved url, and the resolved url follows
  the first matching rule, in this order: an url starting with \<open>client/\<close> loses
  that prefix (7 characters); else one starting with \<open>prerendered/dependencies/\<close>
  loses that prefix (25 characters); else one starting with \<open>prerendered/pages/\<close>
  loses that prefix (18 characters); else the url \<open>prerendered/fallback.html\<close>
  becomes the configured fallback path. The resolved url is what remains after the
  one prefix: no later rule is applied to it.
\<close>

theorem transform_resolves_by_first_match:
  assumes "valid_entries entries h"
    and "r \<in> set (keptEntries options entries h)"
    and "u = url (h ! r)"
    and "fb = fallbackOf options"
  shows "url (snd (createManifestTransform env base outDir wm options entries h) ! r) =
           prettyUrl base (suffixOf options) (resolveUrl fb u) \<and>
         (startsWith u ''client/'' \<longrightarrow> ''client/'' @ resolveUrl fb u = u) \<and>
         (\<not> startsWith u ''client/'' \<and> startsWith u ''prerendered/dependencies/'' \<longrightarrow>
            ''prerendered/dependencies/'' @ resolveUrl fb u = u) \<and>
         (\<not> startsWith u ''client/'' \<and> \<not> startsWith u ''prerendered/dependencies/'' \<and>
          startsWith u ''prerendered/pages/'' \<longrightarrow>
            ''prerendered/pages/'' @ resolveUrl fb u = u) \<and>
         (\<not> startsWith u ''client/'' \<and> \<not> startsWith u ''prerendered/dependencies/'' \<and>
          \<not> startsWith u ''prerendered/pages/'' \<and> u = ''prerendered/fallback.html'' \<longrightarrow>
            resolveUrl fb u = fb)"
proof -
  from assms(2) have "r \<in> set entries" by (simp add: set_keptEntries)
  with assms(1) have "r < length h" "distinct entries"
    by (simp_all add: valid_entries_nth valid_entries_distinct)
  then have stored: "url (snd (createManifestTransform env base outDir wm options entries h) ! r) =
      prettyUrl base (suffixOf options) (resolveUrl fb u)"
    using assms(2-4) by (simp add: transform_entry transformUrl_def)
  have c: "startsWith u ''client/'' \<Longrightarrow> ''client/'' @ resolveUrl fb u = u"
    using startsWith_strip[of u "''client/''"] by (simp add: resolveUrl_def)
  have d: "\<not> startsWith u ''client/'' \<Longrightarrow> startsWith u ''prerendered/dependencies/'' \<Longrightarrow>
      ''prerendered/dependencies/'' @ resolveUrl fb u = u"
    using startsWith_strip[of u "''prerendered/dependencies/''"] by (simp add: resolveUrl_def)
  have p: "\<not> startsWith u ''client/'' \<Longrightarrow> \<not> startsWith u ''prerendered/dependencies/'' \<Longrightarrow>
      startsWith u ''prerendered/pages/'' \<Longrightarrow> ''prerendered/pages/'' @ resolveUrl fb u = u"
    using startsWith_strip[of u "''prerendered/pages/''"] by (simp add: resolveUrl_def)
  have f: "\<not> startsWith u ''client/'' \<Longrightarrow> \<not> startsWith u ''prerendered/dependencies/'' \<Longrightarrow>
      \<not> startsWith u ''prerendered/pages/'' \<Longrightarrow> u = ''prerendered/fallback.html'' \<Longrightarrow>
      resolveUrl fb u = fb"
    by (simp add: resolveUrl_def defaultAdapterFallback_def)
  from stored c d p f show ?thesis by blast
qed

theorem transform_resolves_by_first_match_witness:
  "valid_entries [0, 1, 2, 3, 4] sampleStore \<and>
   startsWith (url (sampleStore ! 0)) ''client/'' \<and>
   ''client/'' @ resolveUrl ''200.html'' (url (sampleStore ! 0)) = url (sampleStore ! 0) \<and>
   resolveUrl ''200.html'' (url (sampleStore ! 0)) = ''prerendered/pages/a.html'' \<and>
   startsWith (url (sampleStore ! 1)) ''prerendered/dependencies/'' \<and>
   ''prerendered/dependencies/'' @ resolveUrl ''200.html'' (url (sampleStore ! 1)) = url (sampleStore ! 1) \<and>
   startsWith (url (sampleStore ! 2)) ''prerendered/pages/'' \<and>
   ''prerendered/pages/'' @ resolveUrl ''200.html'' (url (sampleStore ! 2)) = url (sampleStore ! 2) \<and>
   url (sampleStore ! 3) = ''prerendered/fallback.html'' \<and>
   resolveUrl ''200.html'' (url (sampleStore ! 3)) = ''200.html'' \<and>
   map url (snd (createManifestTransform sampleEnv ''/'' ''out'' None
      (kitOptions (Some ''200.html'') None None) [0, 1, 2, 3, 4] sampleStore)) =
     [''prerendered/pages/a'', ''blog/__data.json'', ''about'', ''200'', ''robots.txt'']"
proof -
  let ?E = "[0, 1, 2, 3, 4] :: ref list"
  let ?O = "kitOptions (Some ''200.html'') None None"
  have v: "valid_entries ?E sampleStore" by code_simp
  have fb: "''200.html'' = fallbackOf ?O" by code_simp
  have k0: "0 \<in> set (keptEntries ?O ?E sampleStore)" by code_simp
  have k1: "1 \<in> set (keptEntries ?O ?E sampleStore)" by code_simp
  have k2: "2 \<in> set (keptEntries ?O ?E sampleStore)" by code_simp
  have k3: "3 \<in> set (keptEntries ?O ?E sampleStore)" by code_simp
  note t0 = transform_resolves_by_first_match[OF v k0 refl fb, of sampleEnv "''/''" "''out''" None]
  note t1 = transform_resolves_by_first_match[OF v k1 refl fb, of sampleEnv "''/''" "''out''" None]
  note t2 = transform_resolves_by_first_match[OF v k2 refl fb, of sampleEnv "''/''" "''out''" None]
  note t3 = transform_resolves_by_first_match[OF v k3 refl fb, of sampleEnv "''/''" "''out''" None]
  have s0: "startsWith (url (sampleStore ! 0)) ''client/''" by code_simp
  have s1: "\<not> startsWith (url (sampleStore ! 1)) ''client/'' \<and>
            startsWith (url (sampleStore ! 1)) ''prerendered/dependencies/''" by code_simp
  have s2: "\<not> startsWith (url (sampleStore ! 2)) ''client/'' \<and>
            \<not> startsWith (url (sampleStore ! 2)) ''prerendered/dependencies/'' \<and>
            startsWith (url (sampleStore ! 2)) ''prerendered/pages/''" by code_simp
  have s3: "\<not> startsWith (url (sampleStore ! 3)) ''client/'' \<and>
            \<not> startsWith (url (sampleStore ! 3)) ''prerendered/dependencies/'' \<and>
            \<not> startsWith (url (sampleStore ! 3)) ''prerendered/pages/'' \<and>
            url (sampleStore ! 3) = ''prerendered/fallback.html''" by code_simp
  have r0: "resolveUrl ''200.html'' (url (sampleStore ! 0)) = ''prerendered/pages/a.html''"
    by code_simp
  have out: "map url (snd (createManifestTransform sampleEnv ''/'' ''out'' None ?O ?E sampleStore)) =
     [''prerendered/pages/a'', ''blog/__data.json'', ''about'', ''200'', ''robots.txt'']"
    by code_simp
  from t0 s0 have c0: "''client/'' @ resolveUrl ''200.html'' (url (sampleStore ! 0)) = url (sampleStore ! 0)"
    by blast
  from t1 s1 have c1: "''prerendered/dependencies/'' @ resolveUrl ''200.html'' (url (sampleStore ! 1)) =
      url (sampleStore ! 1)"
    by blast
  from t2 s2 have c2: "''prerendered/pages/'' @ resolveUrl ''200.html'' (url (sampleStore ! 2)) =
      url (sampleStore ! 2)"
    by blast
  from t3 s3 have c3: "resolveUrl ''200.html'' (url (sampleStore ! 3)) = ''200.html''"
    by blast
  show ?thesis
    using v s0 c0 r0 s1 c1 s2 c2 s3 c3 out by (intro conjI) (elim conjE, assumption)+
qed

subsection \<open>C2: the default fallback document\<close>

text \<open>
  Claim C2, as stated, says that with an override the entries named
  \<open>prerendered/fallback.html\<close> are kept and rewritten to the override. The
  override is only the resolved url: it goes through the pretty-url rewriting like any
  other, so the override \<open>200.html\<close> ends as \<open>200\<close>.
\<close>

theorem fallback_override_is_prettified:
  "fst (createManifestTransform sampleEnv ''/'' ''out'' None (kitOptions (Some ''200.html'') None None)
          [0] [sampleEntry ''prerendered/fallback.html'']) = Inr [0] \<and>
   url (snd (createManifestTransform sampleEnv ''/'' ''out'' None (kitOptions (Some ''200.html'') None None)
          [0] [sampleEntry ''prerendered/fallback.html'']) ! 0) = ''200'' \<and>
   url (snd (createManifestTransform sampleEnv ''/'' ''out'' None (kitOptions (Some ''200.html'') None None)
          [0] [sampleEntry ''prerendered/fallback.html'']) ! 0) \<noteq> ''200.html''"
  by code_simp

text \<open>
  Claim C2, amended. Without an \<open>adapterFallback\<close> override (absent, or the
  empty string, which line 109 reads as absent), every entry whose url is
  \<open>prerendered/fallback.html\<close> is absent from the returned manifest, and is left
  as it is. With a non-empty override, such an entry passes the filter of line 116;
  its url becomes the pretty-url rewriting of the override, and it is in the returned
  manifest unless that url is the configured web manifest name.
\<close>

theorem fallback_entry_dropped_or_renamed:
  assumes "valid_entries entries h"
    and "createManifestTransform env base outDir wm options entries h = (res, h')"
    and "r \<in> set entries"
    and "url (h ! r) = ''prerendered/fallback.html''"
  shows "(\<not> truthy (opt_adapterFallback options) \<longrightarrow>
            h' ! r = h ! r \<and> (\<exists>out. res = Inr out \<and> r \<notin> set out)) \<and>
         (\<forall>af. opt_adapterFallback options = Some af \<and> af \<noteq> [] \<longrightarrow>
            url (h' ! r) = prettyUrl base (suffixOf options) af \<and>
            (\<forall>out. res = Inr out \<longrightarrow>
               (r \<in> set out \<longleftrightarrow>
                \<not> (truthy wm \<and> wm = Some (prettyUrl base (suffixOf options) af)))))"
proof -
  from assms(1,3) have len: "r < length h" and dist: "distinct entries"
    by (simp_all add: valid_entries_nth valid_entries_distinct)
  note entry = transform_entry[OF dist len, of env base outDir wm options]
  have none: "h' ! r = h ! r \<and> (\<exists>out. res = Inr out \<and> r \<notin> set out)"
    if no: "\<not> truthy (opt_adapterFallback options)"
  proof -
    from no assms(4) have notkept: "r \<notin> set (keptEntries options entries h)"
      by (simp add: set_keptEntries excludeFallback_def defaultAdapterFallback_def)
    with entry assms(2) have same: "h' ! r = h ! r" by simp
    from no have "spaFallback options = None" by (rule spaFallback_no_override)
    from transform_no_spa[OF this, of env base outDir wm entries h] assms(2)
    obtain out where out: "res = Inr out" by auto
    with assms(2) have "createManifestTransform env base outDir wm options entries h = (Inr out, h')"
      by simp
    from transform_out_mem[OF this len] notkept have "r \<notin> set out" by simp
    with same out show ?thesis by blast
  qed
  have some: "url (h' ! r) = prettyUrl base (suffixOf options) af \<and>
      (\<forall>out. res = Inr out \<longrightarrow>
         (r \<in> set out \<longleftrightarrow> \<not> (truthy wm \<and> wm = Some (prettyUrl base (suffixOf options) af))))"
    if af: "opt_adapterFallback options = Some af \<and> af \<noteq> []" for af
  proof -
    from af have fb: "fallbackOf options = af" and ex: "\<not> excludeFallback options"
      by (simp_all add: fallbackOf_override excludeFallback_override)
    from ex assms(3) have kept: "r \<in> set (keptEntries options entries h)"
      by (simp add: set_keptEntries)
    with entry assms(2,4) fb have u: "url (h' ! r) = prettyUrl base (suffixOf options) af"
      by (simp add: transformUrl_fallback)
    have "r \<in> set out \<longleftrightarrow> \<not> (truthy wm \<and> wm = Some (prettyUrl base (suffixOf options) af))"
      if "res = Inr out" for out
      using transform_out_mem[of env base outDir wm options entries h out h' r] that assms(2) len kept u
      by simp
    with u show ?thesis by blast
  qed
  from none some show ?thesis by blast
qed


theorem fallback_entry_dropped_or_renamed_witness:
  "valid_entries [0, 1, 2, 3, 4] sampleStore \<and>
   url (sampleStore ! 3) = ''prerendered/fallback.html'' \<and>
   \<not> truthy (opt_adapterFallback None) \<and>
   snd (createManifestTransform sampleEnv ''/'' ''out'' None None [0, 1, 2, 3, 4] sampleStore) ! 3 =
     sampleStore ! 3 \<and>
   (\<exists>out. fst (createManifestTransform sampleEnv ''/'' ''out'' None None [0, 1, 2, 3, 4] sampleStore) =
      Inr out \<and> 3 \<notin> set out) \<and>
   opt_adapterFallback (kitOptions (Some ''200.html'') None None) = Some ''200.html'' \<and>
   url (snd (createManifestTransform sampleEnv ''/'' ''out'' None (kitOptions (Some ''200.html'') None None)
          [0, 1, 2, 3, 4] sampleStore) ! 3) =
     prettyUrl ''/'' (suffixOf (kitOptions (Some ''200.html'') None None)) ''200.html'' \<and>
   prettyUrl ''/'' (suffixOf (kitOptions (Some ''200.html'') None None)) ''200.html'' = ''200'' \<and>
   fst (createManifestTransform sampleEnv ''/'' ''out'' None (kitOptions (Some ''200.html'') None None)
          [0, 1, 2, 3, 4] sampleStore) = Inr [0, 1, 2, 3, 4]"
proof -
  let ?E = "[0, 1, 2, 3, 4] :: ref list"
  let ?O = "kitOptions (Some ''200.html'') None None"
  have v: "valid_entries ?E sampleStore" by code_simp
  have m: "(3::nat) \<in> set ?E" by simp
  have u: "url (sampleStore ! 3) = ''prerendered/fallback.html''" by code_simp
  have n: "\<not> truthy (opt_adapterFallback None)" by code_simp
  have o: "opt_adapterFallback ?O = Some ''200.html''" by code_simp
  have p: "prettyUrl ''/'' (suffixOf ?O) ''200.html'' = ''200''" by code_simp
  have f: "fst (createManifestTransform sampleEnv ''/'' ''out'' None ?O ?E sampleStore) = Inr ?E"
    by code_simp
  note a = fallback_entry_dropped_or_renamed[where env = sampleEnv and base = "''/''" and
      outDir = "''out''" and wm = None and options = None, OF v surjective_pairing m u]
  note b = fallback_entry_dropped_or_renamed[where env = sampleEnv and base = "''/''" and
      outDir = "''out''" and wm = None and options = ?O, OF v surjective_pairing m u]
  from a n have c1: "snd (createManifestTransform sampleEnv ''/'' ''out'' None None ?E sampleStore) ! 3 =
      sampleStore ! 3 \<and>
      (\<exists>out. fst (createManifestTransform sampleEnv ''/'' ''out'' None None ?E sampleStore) = Inr out \<and>
         3 \<notin> set out)"
    by blast
  from b o have c2: "url (snd (createManifestTransform sampleEnv ''/'' ''out'' None ?O ?E sampleStore) ! 3) =
      prettyUrl ''/'' (suffixOf ?O) ''200.html''"
    by simp
  show ?thesis
    using v u n c1 o c2 p f by (intro conjI) (elim conjE, assumption)+
qed

subsection \<open>C3: trailing slashes of the urls derived from html files\<close>

text \<open>
  Claim C3, as stated, says that in the default mode no url derived from an html file
  ends in \<open>/\<close>. The root \<open>index.html\<close> maps to \<open>base\<close> in either mode,
  and the default \<open>base\<close> is \<open>/\<close>; and where what is left of the path after
  cutting \<open>.html\<close> ends in \<open>/\<close>, so does the url.
\<close>

theorem default_mode_html_urls_ending_in_slash:
  "opt_trailingSlash None \<noteq> Some ''always'' \<and>
   endsWith (stripLeadingSlash (resolveUrl (fallbackOf None) ''prerendered/pages/index.html'')) ''.html'' \<and>
   endsWith (stripLeadingSlash (resolveUrl (fallbackOf None) ''client/docs/.html'')) ''.html'' \<and>
   createManifestTransform sampleEnv ''/'' ''out'' None None [0, 1]
       [sampleEntry ''prerendered/pages/index.html'', sampleEntry ''client/docs/.html''] =
     (Inr [0, 1], [sampleEntry ''/'', sampleEntry ''docs/'']) \<and>
   endsWith (url (sampleEntry ''/'')) ''/'' \<and>
   endsWith (url (sampleEntry ''docs/'')) ''/''"
  by code_simp

text \<open>
  Claim C3, amended. For every entry whose resolved url ends in \<open>.html\<close>, with
  \<open>u\<close> the resolved url after one leading slash is cut off: if \<open>u\<close> is
  \<open>index.html\<close> the stored url is \<open>base\<close>, in either mode; otherwise, when
  \<open>trailingSlash\<close> is \<open>always\<close> the stored url ends in \<open>/\<close>, and when it
  is anything else the stored url does not end in \<open>/\<close>, provided \<open>u\<close> ends
  neither in \<open>//index.html\<close> nor in \<open>/.html\<close>.
\<close>

theorem html_urls_trailing_slash:
  assumes "valid_entries entries h"
    and "createManifestTransform env base outDir wm options entries h = (res, h')"
    and "r \<in> set (keptEntries options entries h)"
    and "v = resolveUrl (fallbackOf options) (url (h ! r))"
    and "endsWith v ''.html''"
    and "u = stripLeadingSlash v"
  shows "(u = ''index.html'' \<longrightarrow> url (h' ! r) = base) \<and>
         (u \<noteq> ''index.html'' \<and> opt_trailingSlash options = Some ''always'' \<longrightarrow>
            endsWith (url (h' ! r)) ''/'') \<and>
         (u \<noteq> ''index.html'' \<and> opt_trailingSlash options \<noteq> Some ''always'' \<and>
          \<not> endsWith u ''//index.html'' \<and> \<not> endsWith u ''/.html'' \<longrightarrow>
            \<not> endsWith (url (h' ! r)) ''/'')"
proof -
  from assms(3) have "r \<in> set entries" by (rule keptEntries_subset)
  with assms(1) have len: "r < length h" and dist: "distinct entries"
    by (simp_all add: valid_entries_nth valid_entries_distinct)
  from transform_entry[OF dist len, of env base outDir wm options] assms(2,3,4)
  have stored: "url (h' ! r) = prettyUrl base (suffixOf options) v"
    by (simp add: transformUrl_def)
  have root: "url (h' ! r) = base" if "u = ''index.html''"
    using that stored assms(5,6) by (simp add: prettyUrl_root)
  have always: "endsWith (url (h' ! r)) ''/''"
    if "u \<noteq> ''index.html''" "opt_trailingSlash options = Some ''always''"
    using that stored assms(5,6) by (simp add: suffixOf_def prettyUrl_always)
  have default: "\<not> endsWith (url (h' ! r)) ''/''"
    if "u \<noteq> ''index.html''" "opt_trailingSlash options \<noteq> Some ''always''"
      "\<not> endsWith u ''//index.html''" "\<not> endsWith u ''/.html''"
    using that stored assms(5,6) by (simp add: suffixOf_def prettyUrl_default)
  from root always default show ?thesis by blast
qed


theorem html_urls_trailing_slash_witness:
  "valid_entries [0] [sampleEntry ''prerendered/pages/index.html''] \<and>
   stripLeadingSlash (resolveUrl (fallbackOf None) ''prerendered/pages/index.html'') = ''index.html'' \<and>
   url (snd (createManifestTransform sampleEnv ''/app/'' ''out'' None None [0]
          [sampleEntry ''prerendered/pages/index.html'']) ! 0) = ''/app/'' \<and>
   valid_entries [0, 1, 2, 3, 4] sampleStore \<and>
   stripLeadingSlash (resolveUrl ''prerendered/fallback.html'' (url (sampleStore ! 2))) = ''about.html'' \<and>
   opt_trailingSlash (kitOptions None (Some ''always'') None) = Some ''always'' \<and>
   endsWith (url (snd (createManifestTransform sampleEnv ''/'' ''out'' None
          (kitOptions None (Some ''always'') None) [0, 1, 2, 3, 4] sampleStore) ! 2)) ''/'' \<and>
   url (snd (createManifestTransform sampleEnv ''/'' ''out'' None
          (kitOptions None (Some ''always'') None) [0, 1, 2, 3, 4] sampleStore) ! 2) = ''about/'' \<and>
   opt_trailingSlash None \<noteq> Some ''always'' \<and>
   \<not> endsWith (url (snd (createManifestTransform sampleEnv ''/'' ''out'' None None
          [0, 1, 2, 3, 4] sampleStore) ! 2)) ''/'' \<and>
   url (snd (createManifestTransform sampleEnv ''/'' ''out'' None None
          [0, 1, 2, 3, 4] sampleStore) ! 2) = ''about''"
proof -
  let ?E = "[0, 1, 2, 3, 4] :: ref list"
  let ?A = "kitOptions None (Some ''always'') None"
  let ?I = "[sampleEntry ''prerendered/pages/index.html'']"
  have vi: "valid_entries [0] ?I" by code_simp
  have ki: "0 \<in> set (keptEntries None [0] ?I)" by code_simp
  have ri: "''index.html'' = resolveUrl (fallbackOf None) (url (?I ! 0))" by code_simp
  have ei: "endsWith ''index.html'' ''.html''" by code_simp
  have si: "''index.html'' = stripLeadingSlash ''index.html''" by code_simp
  have si': "stripLeadingSlash (resolveUrl (fallbackOf None) ''prerendered/pages/index.html'') = ''index.html''"
    by code_simp
  from html_urls_trailing_slash[where env = sampleEnv and base = "''/app/''" and outDir = "''out''"
      and wm = None and options = None, OF vi surjective_pairing ki ri ei si]
  have c1: "url (snd (createManifestTransform sampleEnv ''/app/'' ''out'' None None [0] ?I) ! 0) = ''/app/''"
    by blast
  have v: "valid_entries ?E sampleStore" by code_simp
  have ka: "2 \<in> set (keptEntries ?A ?E sampleStore)" by code_simp
  have kn: "2 \<in> set (keptEntries None ?E sampleStore)" by code_simp
  have ra: "''about.html'' = resolveUrl (fallbackOf ?A) (url (sampleStore ! 2))" by code_simp
  have rn: "''about.html'' = resolveUrl (fallbackOf None) (url (sampleStore ! 2))" by code_simp
  have e: "endsWith ''about.html'' ''.html''" by code_simp
  have s: "''about.html'' = stripLeadingSlash ''about.html''" by code_simp
  have s': "stripLeadingSlash (resolveUrl ''prerendered/fallback.html'' (url (sampleStore ! 2))) = ''about.html''"
    by code_simp
  have h: "''about.html'' \<noteq> ''index.html'' \<and> \<not> endsWith ''about.html'' ''//index.html'' \<and>
      \<not> endsWith ''about.html'' ''/.html''"
    by code_simp
  have oa: "opt_trailingSlash ?A = Some ''always''" by code_simp
  have on: "opt_trailingSlash None \<noteq> Some ''always''" by code_simp
  from html_urls_trailing_slash[where env = sampleEnv and base = "''/''" and outDir = "''out''"
      and wm = None and options = ?A, OF v surjective_pairing ka ra e s] h oa
  have c2: "endsWith (url (snd (createManifestTransform sampleEnv ''/'' ''out'' None ?A ?E sampleStore) ! 2)) ''/''"
    by blast
  from html_urls_trailing_slash[where env = sampleEnv and base = "''/''" and outDir = "''out''"
      and wm = None and options = None, OF v surjective_pairing kn rn e s] h on
  have c3: "\<not> endsWith (url (snd (createManifestTransform sampleEnv ''/'' ''out'' None None ?E sampleStore) ! 2)) ''/''"
    by blast
  have x2: "url (snd (createManifestTransform sampleEnv ''/'' ''out'' None ?A ?E sampleStore) ! 2) = ''about/''"
    by code_simp
  have x3: "url (snd (createManifestTransform sampleEnv ''/'' ''out'' None None ?E sampleStore) ! 2) = ''about''"
    by code_simp
  show ?thesis
    using vi si' c1 v s' oa c2 x2 on c3 x3 by (intro conjI) assumption+
qed

subsection \<open>C4: entries are rewritten in place\<close>

text \<open>
  Claim C4, as stated, says that the transform produces a new entry record and leaves
  the input entry unchanged. Line 157 assigns to \<open>e.url\<close> and line 159 returns
  \<open>e\<close>: the manifest holds the reference it was given, and the entry behind it
  has the new url.
\<close>

theorem transform_mutates_input_entry:
  "fst (createManifestTransform sampleEnv ''/'' ''out'' None None [0] [sampleEntry ''client/_app/x.js'']) = Inr [0] \<and>
   snd (createManifestTransform sampleEnv ''/'' ''out'' None None [0] [sampleEntry ''client/_app/x.js'']) ! 0
     \<noteq> [sampleEntry ''client/_app/x.js''] ! 0 \<and>
   snd (createManifestTransform sampleEnv ''/'' ''out'' None None [0] [sampleEntry ''client/_app/x.js'']) =
     [sampleEntry ''_app/x.js'']"
  by code_simp

text \<open>
  Claim C4, amended. Every non-synthetic entry of the returned manifest is one of the
  input entries, the same object: the transform has assigned the rewritten url to it,
  and its revision and size are those it had on input.
\<close>

theorem transform_rewrites_in_place:
  assumes "valid_entries entries h"
    and "createManifestTransform env base outDir wm options entries h = (Inr out, h')"
    and "r \<in> set out" and "r < length h"
  shows "r \<in> set entries \<and>
         h' ! r = (h ! r)\<lparr>url := transformUrl base (suffixOf options) (fallbackOf options) (url (h ! r))\<rparr> \<and>
         revision (h' ! r) = revision (h ! r) \<and>
         size_bytes (h' ! r) = size_bytes (h ! r)"
proof -
  from assms(2-4) have kept: "r \<in> set (keptEntries options entries h)"
    by (rule transform_out_kept)
  then have mem: "r \<in> set entries" by (rule keptEntries_subset)
  from assms(1) have "distinct entries" by (rule valid_entries_distinct)
  from transform_entry[OF this assms(4), of env base outDir wm options] kept assms(2)
  have "h' ! r = (h ! r)\<lparr>url := transformUrl base (suffixOf options) (fallbackOf options) (url (h ! r))\<rparr>"
    by simp
  with mem show ?thesis by simp
qed

theorem transform_rewrites_in_place_witness:
  "valid_entries [0, 1, 2, 3, 4] sampleStore \<and>
   createManifestTransform sampleEnv ''/'' ''out'' None None [0, 1, 2, 3, 4] sampleStore =
     (Inr [0, 1, 2, 4],
      [sampleEntry ''prerendered/pages/a'', sampleEntry ''blog/__data.json'', sampleEntry ''about'',
       sampleEntry ''prerendered/fallback.html'', sampleEntry ''robots.txt'']) \<and>
   [sampleEntry ''prerendered/pages/a'', sampleEntry ''blog/__data.json'', sampleEntry ''about'',
       sampleEntry ''prerendered/fallback.html'', sampleEntry ''robots.txt''] ! 2 =
     (sampleStore ! 2)\<lparr>url := transformUrl ''/'' (suffixOf None) (fallbackOf None) (url (sampleStore ! 2))\<rparr> \<and>
   revision (sampleEntry ''about'') = revision (sampleStore ! 2) \<and>
   size_bytes (sampleEntry ''about'') = size_bytes (sampleStore ! 2)"
proof -
  let ?h' = "[sampleEntry ''prerendered/pages/a'', sampleEntry ''blog/__data.json'', sampleEntry ''about'',
       sampleEntry ''prerendered/fallback.html'', sampleEntry ''robots.txt'']"
  have v: "valid_entries [0, 1, 2, 3, 4] sampleStore" by code_simp
  have t: "createManifestTransform sampleEnv ''/'' ''out'' None None [0, 1, 2, 3, 4] sampleStore =
     (Inr [0, 1, 2, 4], ?h')"
    by code_simp
  have m: "(2::nat) \<in> set [0, 1, 2, 4]" by simp
  have l: "2 < length sampleStore" by code_simp
  from transform_rewrites_in_place[OF v t m l]
  have "?h' ! 2 = (sampleStore ! 2)\<lparr>url := transformUrl ''/'' (suffixOf None) (fallbackOf None) (url (sampleStore ! 2))\<rparr> \<and>
        revision (?h' ! 2) = revision (sampleStore ! 2) \<and>
        size_bytes (?h' ! 2) = size_bytes (sampleStore ! 2)"
    by blast
  with v t show ?thesis by simp
qed

subsection \<open>C5: entries that match no rule\<close>

text \<open>
  Claim C5, as stated, says that an entry whose url matches none of the four rules
  keeps its url, also when the url ends in \<open>.html\<close>. The pretty-url rewriting of
  lines 133-155 applies to every url ending in \<open>.html\<close>, whether a rule matched
  or not: \<open>foo.html\<close> becomes \<open>foo\<close>.
\<close>

theorem unmatched_html_is_rewritten:
  "\<not> startsWith ''foo.html'' ''client/'' \<and>
   \<not> startsWith ''foo.html'' ''prerendered/dependencies/'' \<and>
   \<not> startsWith ''foo.html'' ''prerendered/pages/'' \<and>
   ''foo.html'' \<noteq> ''prerendered/fallback.html'' \<and>
   createManifestTransform sampleEnv ''/'' ''out'' None None [0] [sampleEntry ''foo.html''] =
     (Inr [0], [sampleEntry ''foo''])"
  by code_simp

text \<open>
  Claim C5, amended. An entry whose url starts with none of \<open>client/\<close>,
  \<open>prerendered/dependencies/\<close> and \<open>prerendered/pages/\<close>, is not
  \<open>prerendered/fallback.html\<close> and does not end in \<open>.html\<close> is left as it
  is, and it is in the returned manifest unless its url is the configured web manifest
  name.
\<close>

theorem unmatched_entry_passes_through:
  assumes "valid_entries entries h"
    and "createManifestTransform env base outDir wm options entries h = (res, h')"
    and "r \<in> set entries"
    and "u = url (h ! r)"
    and "\<not> startsWith u ''client/''"
    and "\<not> startsWith u ''prerendered/dependencies/''"
    and "\<not> startsWith u ''prerendered/pages/''"
    and "u \<noteq> ''prerendered/fallback.html''"
    and "\<not> endsWith u ''.html''"
  shows "h' ! r = h ! r \<and>
         (\<forall>out. res = Inr out \<longrightarrow> (r \<in> set out \<longleftrightarrow> \<not> (truthy wm \<and> wm = Some u)))"
proof -
  from assms(1,3) have len: "r < length h" and dist: "distinct entries"
    by (simp_all add: valid_entries_nth valid_entries_distinct)
  from assms(3,4,8) have kept: "r \<in> set (keptEntries options entries h)"
    by (simp add: set_keptEntries defaultAdapterFallback_def)
  have same: "transformUrl base (suffixOf options) (fallbackOf options) (url (h ! r)) = url (h ! r)"
    using assms(4-9) by (simp add: transformUrl_unmatched)
  from transform_entry[OF dist len, of env base outDir wm options] kept assms(2) same
  have store: "h' ! r = h ! r" by simp
  have "r \<in> set out \<longleftrightarrow> \<not> (truthy wm \<and> wm = Some u)" if "res = Inr out" for out
    using transform_out_mem[of env base outDir wm options entries h out h' r] that assms(2,4) len kept store
    by simp
  with store show ?thesis by blast
qed

theorem unmatched_entry_passes_through_witness:
  "valid_entries [0, 1, 2, 3, 4] sampleStore \<and>
   createManifestTransform sampleEnv ''/'' ''out'' (Some ''manifest.webmanifest'') None
       [0, 1, 2, 3, 4] sampleStore =
     (Inr [0, 1, 2, 4],
      [sampleEntry ''prerendered/pages/a'', sampleEntry ''blog/__data.json'', sampleEntry ''about'',
       sampleEntry ''prerendered/fallback.html'', sampleEntry ''robots.txt'']) \<and>
   url (sampleStore ! 4) = ''robots.txt'' \<and>
   \<not> startsWith ''robots.txt'' ''client/'' \<and>
   \<not> startsWith ''robots.txt'' ''prerendered/dependencies/'' \<and>
   \<not> startsWith ''robots.txt'' ''prerendered/pages/'' \<and>
   ''robots.txt'' \<noteq> ''prerendered/fallback.html'' \<and>
   \<not> endsWith ''robots.txt'' ''.html'' \<and>
   [sampleEntry ''prerendered/pages/a'', sampleEntry ''blog/__data.json'', sampleEntry ''about'',
       sampleEntry ''prerendered/fallback.html'', sampleEntry ''robots.txt''] ! 4 = sampleStore ! 4 \<and>
   (4 \<in> set [0, 1, 2, 4::nat]) =
     (\<not> (truthy (Some ''manifest.webmanifest'') \<and> Some ''manifest.webmanifest'' = Some ''robots.txt''))"
proof -
  let ?h' = "[sampleEntry ''prerendered/pages/a'', sampleEntry ''blog/__data.json'', sampleEntry ''about'',
       sampleEntry ''prerendered/fallback.html'', sampleEntry ''robots.txt'']"
  have v: "valid_entries [0, 1, 2, 3, 4] sampleStore" by code_simp
  have t: "createManifestTransform sampleEnv ''/'' ''out'' (Some ''manifest.webmanifest'') None
       [0, 1, 2, 3, 4] sampleStore = (Inr [0, 1, 2, 4], ?h')"
    by code_simp
  have m: "(4::nat) \<in> set [0, 1, 2, 3, 4]" by simp
  have u: "''robots.txt'' = url (sampleStore ! 4)" by code_simp
  have a1: "\<not> startsWith ''robots.txt'' ''client/''" by code_simp
  have a2: "\<not> startsWith ''robots.txt'' ''prerendered/dependencies/''" by code_simp
  have a3: "\<not> startsWith ''robots.txt'' ''prerendered/pages/''" by code_simp
  have a4: "''robots.txt'' \<noteq> ''prerendered/fallback.html''" by simp
  have a5: "\<not> endsWith ''robots.txt'' ''.html''" by code_simp
  from unmatched_entry_passes_through[OF v t m u a1 a2 a3 a4 a5]
  have c: "?h' ! 4 = sampleStore ! 4 \<and>
      ((4 \<in> set [0, 1, 2, 4::nat]) =
       (\<not> (truthy (Some ''manifest.webmanifest'') \<and> Some ''manifest.webmanifest'' = Some ''robots.txt'')))"
    by blast
  show ?thesis
    using v t u[symmetric] a1 a2 a3 a4 a5 c by (intro conjI) (elim conjE, assumption)+
qed

subsection \<open>C6: \<open>buildGlobPatterns\<close> on \<open>['prerendered/x']\<close>\<close>

text \<open>
  Claim C6, as stated, says that \<open>buildGlobPatterns(['prerendered/x'])\<close> appends
  both the client-stage baseline pattern and \<open>client/*.webmanifest\<close>. The code
  appends the client-stage baseline only: line 196 then finds \<open>webmanifest\<close> in
  the pattern just appended and pushes nothing more.
\<close>

theorem buildGlobPatterns_prerendered_x_no_webmanifest_pattern:
  "''client/*.webmanifest'' \<notin> set (buildGlobPatterns (Some [''prerendered/x'']))"
  by code_simp

text \<open>
  Claim C6, amended. \<open>buildGlobPatterns(['prerendered/x'])\<close> returns
  \<open>prerendered/x\<close> followed by the client-stage baseline pattern: \<open>prerendered/x\<close>
  occurs once, the prerendered baseline pattern is not added, and no web-manifest
  pattern is added, as the client-stage baseline already names \<open>webmanifest\<close>.
\<close>

theorem buildGlobPatterns_prerendered_x:
  "buildGlobPatterns (Some [''prerendered/x'']) =
     [''prerendered/x'', ''client/**/*.{js,css,ico,png,svg,webp,webmanifest}''] \<and>
   count_list (buildGlobPatterns (Some [''prerendered/x''])) ''prerendered/x'' = 1 \<and>
   ''prerendered/**/*.{html,json,js}'' \<notin> set (buildGlobPatterns (Some [''prerendered/x''])) \<and>
   includes_str ''client/**/*.{js,css,ico,png,svg,webp,webmanifest}'' ''webmanifest''"
  by code_simp

subsection \<open>C7: the glob policy only appends\<close>

text \<open>
  Claim C7, as stated, says that the returned sequences always contain the baseline
  entries themselves. A caller's entry with the stage prefix stands in for the
  baseline entry, which is then not added.
\<close>

theorem glob_baseline_entries_missing:
  "''prerendered/**/*.{html,json,js}'' \<notin> set (buildGlobPatterns (Some [''prerendered/x''])) \<and>
   ''server/**'' \<notin> set (buildGlobIgnores (Some [''server/x'']))"
  by code_simp

text \<open>
  Claim C7, amended. For every caller-supplied list the returned sequence is the
  caller's list, unchanged and in place, followed by appended baseline entries only:
  \<open>buildGlobPatterns\<close> appends the prerendered baseline when no caller entry
  starts with \<open>prerendered/\<close>, the client-stage baseline when none starts with
  \<open>client/\<close>, and \<open>client/*.webmanifest\<close> when some caller entry starts with
  \<open>client/\<close> and none contains \<open>webmanifest\<close>; \<open>buildGlobIgnores\<close>
  appends \<open>server/**\<close> when no caller entry starts with \<open>server/\<close>. For an
  absent list the results are the baselines. In every case the result holds an entry
  with each stage prefix: the baseline entry, or the caller's entry that stands in for
  it.
\<close>

theorem glob_policy_appends_only:
  "buildGlobPatterns (Some g0) =
     g0 @
     (if list_ex (\<lambda>p. startsWith p ''prerendered/'') g0 then [] else [''prerendered/**/*.{html,json,js}'']) @
     (if list_ex (\<lambda>p. startsWith p ''client/'') g0 then []
      else [''client/**/*.{js,css,ico,png,svg,webp,webmanifest}'']) @
     (if list_ex (\<lambda>p. startsWith p ''client/'') g0 \<and> \<not> list_ex (\<lambda>p. includes_str p ''webmanifest'') g0
      then [''client/*.webmanifest''] else []) \<and>
   buildGlobIgnores (Some i0) =
     i0 @ (if list_ex (\<lambda>p. startsWith p ''server/'') i0 then [] else [''server/**'']) \<and>
   buildGlobPatterns None =
     [''client/**/*.{js,css,ico,png,svg,webp,webmanifest}'', ''prerendered/**/*.{html,json,js}''] \<and>
   buildGlobIgnores None = [''server/**''] \<and>
   list_ex (\<lambda>p. startsWith p ''prerendered/'') (buildGlobPatterns g) \<and>
   list_ex (\<lambda>p. startsWith p ''client/'') (buildGlobPatterns g) \<and>
   list_ex (\<lambda>p. includes_str p ''webmanifest'') (buildGlobPatterns g) \<and>
   list_ex (\<lambda>p. startsWith p ''server/'') (buildGlobIgnores i)"
proof -
  note b = startsWith_client_baseline startsWith_prerendered_baseline startsWith_server_baseline
    includes_client_baseline includes_webmanifest_baseline
  note n = not_startsWith_client_prerendered_baseline not_includes_prerendered_baseline
  have p0: "buildGlobPatterns (Some g0) =
     g0 @
     (if list_ex (\<lambda>p. startsWith p ''prerendered/'') g0 then [] else [''prerendered/**/*.{html,json,js}'']) @
     (if list_ex (\<lambda>p. startsWith p ''client/'') g0 then []
      else [''client/**/*.{js,css,ico,png,svg,webp,webmanifest}'']) @
     (if list_ex (\<lambda>p. startsWith p ''client/'') g0 \<and> \<not> list_ex (\<lambda>p. includes_str p ''webmanifest'') g0
      then [''client/*.webmanifest''] else [])"
    using b n by (simp add: buildGlobPatterns_def Let_def)
  have i0: "buildGlobIgnores (Some i0) =
     i0 @ (if list_ex (\<lambda>p. startsWith p ''server/'') i0 then [] else [''server/**''])"
    by (simp add: buildGlobIgnores_def)
  have p2: "list_ex (\<lambda>p. startsWith p ''prerendered/'') (buildGlobPatterns g)"
    using b by (cases g) (simp_all add: buildGlobPatterns_def Let_def)
  have p3: "list_ex (\<lambda>p. startsWith p ''client/'') (buildGlobPatterns g)"
    using b by (cases g) (simp_all add: buildGlobPatterns_def Let_def)
  have p4: "list_ex (\<lambda>p. includes_str p ''webmanifest'') (buildGlobPatterns g)"
    using b by (cases g) (simp_all add: buildGlobPatterns_def Let_def)
  have i2: "list_ex (\<lambda>p. startsWith p ''server/'') (buildGlobIgnores i)"
    using b by (cases i) (simp_all add: buildGlobIgnores_def)
  have n1: "buildGlobPatterns None =
     [''client/**/*.{js,css,ico,png,svg,webp,webmanifest}'', ''prerendered/**/*.{html,json,js}'']"
    by (simp add: buildGlobPatterns_def)
  have n2: "buildGlobIgnores None = [''server/**'']"
    by (simp add: buildGlobIgnores_def)
  from p0 i0 n1 n2 p2 p3 p4 i2 show ?thesis by (intro conjI) assumption+
qed

subsection \<open>C8: the synthetic fallback entry with a custom mapping and revision\<close>

text \<open>
  Claim C8, as stated, says that the returned manifest always holds the synthetic entry
  as its last element. The filter of line 184 runs after the \<open>push\<close>: a mapped url
  equal to the configured web manifest name is removed again.
\<close>

theorem spa_fallback_named_like_web_manifest_is_dropped:
  "createManifestTransform sampleEnv ''/'' ''out'' (Some ''manifest.webmanifest'')
     (kitOptions (Some ''200.html'') None
        (Some (SpaObject (Some ''manifest.webmanifest'') (Some (\<lambda>_. Inr ''abc'')))))
     [] [] =
   (Inr [], [\<lparr>url = ''manifest.webmanifest'', revision = ''abc'', size_bytes = 0\<rparr>])"
  by code_simp

text \<open>
  Claim C8, amended. When \<open>spa\<close> is an object with a non-empty
  \<open>fallbackMapping\<close> and a \<open>fallbackRevision\<close> function whose promise resolves,
  \<open>adapterFallback\<close> is non-empty, and the mapped url is not the configured web
  manifest name, the returned manifest ends with exactly one synthetic entry: its last
  element is a new object, which is none of the input entries, with the mapped url,
  the revision the function returned and size 0; every other element is an input
  entry.
\<close>

theorem spa_custom_fallback_entry:
  assumes "valid_entries entries h"
    and "opt_spa options = Some (SpaObject (Some m) (Some f))" and "m \<noteq> []"
    and "opt_adapterFallback options = Some af" and "af \<noteq> []"
    and "f () = Inr rv"
    and "\<not> (truthy wm \<and> wm = Some m)"
  shows "\<exists>out0 h1. createManifestTransform env base outDir wm options entries h =
            (Inr (out0 @ [length h]), h1 @ [\<lparr>url = m, revision = rv, size_bytes = 0\<rparr>]) \<and>
          length h1 = length h \<and> set out0 \<subseteq> set entries \<and> length h \<notin> set entries"
proof -
  let ?sp = "SpaObject (Some m) (Some f)"
  let ?e = "\<lparr>url = m, revision = rv, size_bytes = 0\<rparr>"
  let ?kept = "keptEntries options entries h"
  let ?h1 = "mapUrls (transformUrl base (suffixOf options) (fallbackOf options)) ?kept h"
  have spa: "spaFallback options = Some (?sp, af)"
    using assms(2,4,5) by (simp add: spaFallback_Some truthy_spa_def)
  have e: "fallbackEntry env outDir ?sp af = Inr ?e"
    using assms(3,6) by (simp add: fallbackEntry_def fallbackName_def)
  have len: "length ?h1 = length h" by (rule length_mapUrls)
  have keep: "\<not> (truthy wm \<and> wm = Some (url ?e))" using assms(7) by simp
  have "createManifestTransform env base outDir wm options entries h =
      (Inr (returnManifest wm (?kept @ [length h]) (?h1 @ [?e])), ?h1 @ [?e])"
    using transform_spa[OF spa, of env base outDir wm entries h] e by (simp add: Let_def)
  also have "returnManifest wm (?kept @ [length h]) (?h1 @ [?e]) =
      returnManifest wm ?kept (?h1 @ [?e]) @ [length h]"
    using keep len by (rule returnManifest_snoc_keep)
  finally have t: "createManifestTransform env base outDir wm options entries h =
      (Inr (returnManifest wm ?kept (?h1 @ [?e]) @ [length h]), ?h1 @ [?e])" .
  have sub: "set (returnManifest wm ?kept (?h1 @ [?e])) \<subseteq> set entries"
    using returnManifest_subset[of wm ?kept "?h1 @ [?e]"] by (auto simp: set_keptEntries)
  have fresh: "length h \<notin> set entries"
    using assms(1) valid_entries_nth[of entries h "length h"] by auto
  from t len sub fresh show ?thesis by blast
qed


theorem spa_custom_fallback_entry_witness:
  "valid_entries [0, 1, 2, 3, 4] sampleStore \<and>
   \<not> (truthy (Some ''manifest.webmanifest'') \<and> Some ''manifest.webmanifest'' = Some ''/offline'') \<and>
   (\<exists>out0 h1.
      createManifestTransform sampleEnv ''/'' ''out'' (Some ''manifest.webmanifest'')
        (kitOptions (Some ''200.html'') None (Some (SpaObject (Some ''/offline'') (Some (\<lambda>_. Inr ''abc'')))))
        [0, 1, 2, 3, 4] sampleStore =
      (Inr (out0 @ [length sampleStore]),
       h1 @ [\<lparr>url = ''/offline'', revision = ''abc'', size_bytes = 0\<rparr>]) \<and>
      length h1 = length sampleStore \<and> set out0 \<subseteq> set [0, 1, 2, 3, 4] \<and>
      length sampleStore \<notin> set [0, 1, 2, 3, 4]) \<and>
   createManifestTransform sampleEnv ''/'' ''out'' (Some ''manifest.webmanifest'')
        (kitOptions (Some ''200.html'') None (Some (SpaObject (Some ''/offline'') (Some (\<lambda>_. Inr ''abc'')))))
        [0, 1, 2, 3, 4] sampleStore =
      (Inr [0, 1, 2, 3, 4, 5],
       [sampleEntry ''prerendered/pages/a'', sampleEntry ''blog/__data.json'', sampleEntry ''about'',
        sampleEntry ''200'', sampleEntry ''robots.txt'',
        \<lparr>url = ''/offline'', revision = ''abc'', size_bytes = 0\<rparr>])"
proof -
  let ?f = "\<lambda>_::unit. Inr ''abc'' :: error + string"
  let ?O = "kitOptions (Some ''200.html'') None (Some (SpaObject (Some ''/offline'') (Some ?f)))"
  have v: "valid_entries [0, 1, 2, 3, 4] sampleStore" by code_simp
  have sp: "opt_spa ?O = Some (SpaObject (Some ''/offline'') (Some ?f))"
    by (simp add: opt_spa_def kitOptions_def)
  have m: "''/offline'' \<noteq> []" by simp
  have af: "opt_adapterFallback ?O = Some ''200.html''"
    by (simp add: opt_adapterFallback_def kitOptions_def)
  have a: "''200.html'' \<noteq> []" by simp
  have f: "?f () = Inr ''abc''" by simp
  have w: "\<not> (truthy (Some ''manifest.webmanifest'') \<and> Some ''manifest.webmanifest'' = Some ''/offline'')"
    by simp
  note t = spa_custom_fallback_entry[where env = sampleEnv and base = "''/''" and outDir = "''out''",
      OF v sp m af a f w]
  have x: "createManifestTransform sampleEnv ''/'' ''out'' (Some ''manifest.webmanifest'') ?O
        [0, 1, 2, 3, 4] sampleStore =
      (Inr [0, 1, 2, 3, 4, 5],
       [sampleEntry ''prerendered/pages/a'', sampleEntry ''blog/__data.json'', sampleEntry ''about'',
        sampleEntry ''200'', sampleEntry ''robots.txt'',
        \<lparr>url = ''/offline'', revision = ''abc'', size_bytes = 0\<rparr>])"
    by code_simp
  show ?thesis
    using v w t x by (intro conjI) assumption+
qed

subsection \<open>C9: a failing hash fails the transform\<close>

text \<open>
  Claim C9. When the synthetic fallback entry is built by hashing (\<open>spa\<close> is
  \<open>true\<close>, or an object without a \<open>fallbackRevision\<close> function, and
  \<open>adapterFallback\<close> is non-empty) and reading
  \<open>client/_app/version.json\<close> under the output directory fails,
  \<open>buildManifestEntry\<close> rejects with the stream's error, and the transform
  rejects with that same error: it returns no manifest.
\<close>

theorem hashing_failure_fails_transform:
  assumes "opt_spa options = Some sp"
    and "sp = SpaBool True \<or> sp = SpaObject m None"
    and "opt_adapterFallback options = Some af" and "af \<noteq> []"
    and "createReadStream env (resolve env outDir ''client/_app/version.json'') = Inl err"
  shows "buildManifestEntry env u (resolve env outDir ''client/_app/version.json'') = Inl err \<and>
         fst (createManifestTransform env base outDir wm options entries h) = Inl err \<and>
         (\<forall>out. fst (createManifestTransform env base outDir wm options entries h) \<noteq> Inr out)"
proof -
  from assms(2) have tr: "truthy_spa (Some sp)" by (auto simp: truthy_spa_def)
  from assms(1) tr assms(3,4) have spa: "spaFallback options = Some (sp, af)"
    by (rule spaFallback_Some)
  from assms(5) have b: "buildManifestEntry env v (resolve env outDir ''client/_app/version.json'') = Inl err"
    for v by (rule buildManifestEntry_error)
  from assms(2) b have "fallbackEntry env outDir sp af = Inl err"
    by (auto simp: fallbackEntry_def)
  with transform_spa[OF spa, of env base outDir wm entries h]
  have "fst (createManifestTransform env base outDir wm options entries h) = Inl err"
    by (simp add: Let_def)
  with b show ?thesis by simp
qed

theorem hashing_failure_fails_transform_witness:
  "opt_spa (kitOptions (Some ''200.html'') None (Some (SpaBool True))) = Some (SpaBool True) \<and>
   opt_adapterFallback (kitOptions (Some ''200.html'') None (Some (SpaBool True))) = Some ''200.html'' \<and>
   createReadStream missingEnv (resolve missingEnv ''out'' ''client/_app/version.json'') =
     Inl (Error ''ENOENT'') \<and>
   buildManifestEntry missingEnv ''200.html'' (resolve missingEnv ''out'' ''client/_app/version.json'') =
     Inl (Error ''ENOENT'') \<and>
   fst (createManifestTransform missingEnv ''/'' ''out'' None
          (kitOptions (Some ''200.html'') None (Some (SpaBool True))) [0, 1, 2, 3, 4] sampleStore) =
     Inl (Error ''ENOENT'') \<and>
   opt_spa (kitOptions (Some ''200.html'') None (Some (SpaObject (Some ''/offline'') None))) =
     Some (SpaObject (Some ''/offline'') None) \<and>
   fst (createManifestTransform missingEnv ''/'' ''out'' None
          (kitOptions (Some ''200.html'') None (Some (SpaObject (Some ''/offline'') None)))
          [0, 1, 2, 3, 4] sampleStore) =
     Inl (Error ''ENOENT'')"
proof -
  let ?B = "kitOptions (Some ''200.html'') None (Some (SpaBool True))"
  let ?M = "kitOptions (Some ''200.html'') None (Some (SpaObject (Some ''/offline'') None))"
  have sb: "opt_spa ?B = Some (SpaBool True)" by code_simp
  have sm: "opt_spa ?M = Some (SpaObject (Some ''/offline'') None)" by code_simp
  have db: "SpaBool True = SpaBool True \<or> SpaBool True = SpaObject None None" by simp
  have dm: "SpaObject (Some ''/offline'') None = SpaBool True \<or>
      SpaObject (Some ''/offline'') None = SpaObject (Some ''/offline'') None" by simp
  have ab: "opt_adapterFallback ?B = Some ''200.html''" by code_simp
  have am: "opt_adapterFallback ?M = Some ''200.html''" by code_simp
  have a: "''200.html'' \<noteq> []" by simp
  have r: "createReadStream missingEnv (resolve missingEnv ''out'' ''client/_app/version.json'') =
      Inl (Error ''ENOENT'')" by code_simp
  note tb = hashing_failure_fails_transform[where base = "''/''" and wm = None and u = "''200.html''"
      and entries = "[0, 1, 2, 3, 4]" and h = sampleStore, OF sb db ab a r]
  note tm = hashing_failure_fails_transform[where base = "''/''" and wm = None and u = "''/offline''"
      and entries = "[0, 1, 2, 3, 4]" and h = sampleStore, OF sm dm am a r]
  from tb have b1: "buildManifestEntry missingEnv ''200.html''
      (resolve missingEnv ''out'' ''client/_app/version.json'') = Inl (Error ''ENOENT'')"
    by (rule conjunct1)
  from tb have b2: "fst (createManifestTransform missingEnv ''/'' ''out'' None ?B [0, 1, 2, 3, 4] sampleStore) =
      Inl (Error ''ENOENT'')"
    by blast
  from tm have m2: "fst (createManifestTransform missingEnv ''/'' ''out'' None ?M [0, 1, 2, 3, 4] sampleStore) =
      Inl (Error ''ENOENT'')"
    by blast
  show ?thesis
    using sb ab r b1 b2 sm m2 by (intro conjI) assumption+
qed

subsection \<open>C10: the synthetic fallback entry is not rewritten\<close>

text \<open>
  Claim C10. When \<open>spa\<close> is truthy, \<open>adapterFallback\<close> is non-empty and the
  revision is obtained, the entry appended to the store has as url the configured
  string as it is: the non-empty \<open>fallbackMapping\<close> of a \<open>spa\<close> object, else
  \<open>adapterFallback\<close>; no prefix is cut off, no leading slash removed and no
  pretty-url rewriting applied. The filter of line 184 still removes it when its url
  is the configured, non-empty web manifest name; otherwise it is the last element of
  the returned manifest.
\<close>

theorem synthetic_fallback_url_verbatim:
  assumes "opt_spa options = Some sp" and "truthy_spa (Some sp)"
    and "opt_adapterFallback options = Some af" and "af \<noteq> []"
    and "fallbackEntry env outDir sp af = Inr e"
    and "createManifestTransform env base outDir wm options entries h = (res, h')"
  shows "url e = (case sp of SpaObject (Some m) f \<Rightarrow> if m \<noteq> [] then m else af | _ \<Rightarrow> af) \<and>
         length h' = Suc (length h) \<and> h' ! length h = e \<and>
         (\<exists>out. res = Inr out \<and>
            (if truthy wm \<and> wm = Some (url e) then length h \<notin> set out
             else out \<noteq> [] \<and> last out = length h))"
proof -
  let ?kept = "keptEntries options entries h"
  let ?h1 = "mapUrls (transformUrl base (suffixOf options) (fallbackOf options)) ?kept h"
  from assms(1-4) have spa: "spaFallback options = Some (sp, af)" by (rule spaFallback_Some)
  have len: "length ?h1 = length h" by (rule length_mapUrls)
  from transform_spa[OF spa, of env base outDir wm entries h] assms(5,6)
  have res: "res = Inr (returnManifest wm (?kept @ [length h]) (?h1 @ [e]))"
    and h': "h' = ?h1 @ [e]"
    by (simp_all add: Let_def)
  from assms(5) have name: "url e = (case sp of SpaObject (Some m) f \<Rightarrow> if m \<noteq> [] then m else af | _ \<Rightarrow> af)"
    by (simp add: fallbackEntry_url fallbackName_def)
  from h' len have store: "length h' = Suc (length h) \<and> h' ! length h = e"
    by (simp add: nth_append)
  have out: "if truthy wm \<and> wm = Some (url e)
      then length h \<notin> set (returnManifest wm (?kept @ [length h]) (?h1 @ [e]))
      else returnManifest wm (?kept @ [length h]) (?h1 @ [e]) \<noteq> [] \<and>
           last (returnManifest wm (?kept @ [length h]) (?h1 @ [e])) = length h"
  proof (cases "truthy wm \<and> wm = Some (url e)")
    case True
    from len have "(?h1 @ [e]) ! length h = e" by (simp add: nth_append)
    with True have "wm = Some (url ((?h1 @ [e]) ! length h))" by simp
    from returnManifest_drops_name[OF conjunct1[OF True] this]
    have ni: "length h \<notin> set (returnManifest wm (?kept @ [length h]) (?h1 @ [e]))" .
    show ?thesis unfolding if_P[OF True] by (rule ni)
  next
    case False
    show ?thesis unfolding if_not_P[OF False] by (rule last_returnManifest_snoc[OF False len])
  qed
  from name store res out show ?thesis by blast
qed


theorem synthetic_fallback_url_verbatim_witness:
  "fallbackEntry sampleEnv ''out'' (SpaBool True) ''/200.html'' =
     Inr \<lparr>url = ''/200.html'', revision = ''001700000000'', size_bytes = 0\<rparr> \<and>
   snd (createManifestTransform sampleEnv ''/'' ''out'' (Some ''manifest.webmanifest'')
          (kitOptions (Some ''/200.html'') None (Some (SpaBool True))) [0, 1, 2, 3, 4] sampleStore)
       ! length sampleStore =
     \<lparr>url = ''/200.html'', revision = ''001700000000'', size_bytes = 0\<rparr> \<and>
   (\<exists>out. fst (createManifestTransform sampleEnv ''/'' ''out'' (Some ''manifest.webmanifest'')
          (kitOptions (Some ''/200.html'') None (Some (SpaBool True))) [0, 1, 2, 3, 4] sampleStore) =
        Inr out \<and> out \<noteq> [] \<and> last out = length sampleStore) \<and>
   map url (snd (createManifestTransform sampleEnv ''/'' ''out'' (Some ''manifest.webmanifest'')
          (kitOptions (Some ''/200.html'') None (Some (SpaBool True))) [0, 1, 2, 3, 4] sampleStore)) =
     [''prerendered/pages/a'', ''blog/__data.json'', ''about'', ''200'', ''robots.txt'', ''/200.html''] \<and>
   fallbackEntry sampleEnv ''out'' (SpaObject (Some ''manifest.webmanifest'') (Some (\<lambda>_. Inr ''abc'')))
       ''200.html'' =
     Inr \<lparr>url = ''manifest.webmanifest'', revision = ''abc'', size_bytes = 0\<rparr> \<and>
   (\<exists>out. fst (createManifestTransform sampleEnv ''/'' ''out'' (Some ''manifest.webmanifest'')
          (kitOptions (Some ''200.html'') None
             (Some (SpaObject (Some ''manifest.webmanifest'') (Some (\<lambda>_. Inr ''abc'')))))
          [0, 1, 2, 3, 4] sampleStore) =
        Inr out \<and> length sampleStore \<notin> set out)"
proof -
  let ?E = "[0, 1, 2, 3, 4] :: ref list"
  let ?w = "Some ''manifest.webmanifest''"
  let ?B = "kitOptions (Some ''/200.html'') None (Some (SpaBool True))"
  let ?eb = "\<lparr>url = ''/200.html'', revision = ''001700000000'', size_bytes = 0\<rparr>"
  let ?f = "\<lambda>_::unit. Inr ''abc'' :: error + string"
  let ?sm = "SpaObject (Some ''manifest.webmanifest'') (Some ?f)"
  let ?M = "kitOptions (Some ''200.html'') None (Some ?sm)"
  let ?em = "\<lparr>url = ''manifest.webmanifest'', revision = ''abc'', size_bytes = 0\<rparr>"
  have sb: "opt_spa ?B = Some (SpaBool True)" by code_simp
  have tb: "truthy_spa (Some (SpaBool True))" by code_simp
  have ab: "opt_adapterFallback ?B = Some ''/200.html''" by code_simp
  have nb: "''/200.html'' \<noteq> []" by simp
  have fb: "fallbackEntry sampleEnv ''out'' (SpaBool True) ''/200.html'' = Inr ?eb"
    by (simp add: fallbackEntry_def buildManifestEntry_def sampleEnv_def fallbackName_def)
  note b = synthetic_fallback_url_verbatim[where base = "''/''" and wm = ?w and entries = ?E
      and h = sampleStore, OF sb tb ab nb fb surjective_pairing]
  have cb: "\<not> (truthy ?w \<and> ?w = Some (url ?eb))" by simp
  from b have b1: "snd (createManifestTransform sampleEnv ''/'' ''out'' ?w ?B ?E sampleStore)
      ! length sampleStore = ?eb"
    by blast
  from b have "\<exists>out. fst (createManifestTransform sampleEnv ''/'' ''out'' ?w ?B ?E sampleStore) = Inr out \<and>
      (if truthy ?w \<and> ?w = Some (url ?eb) then length sampleStore \<notin> set out
       else out \<noteq> [] \<and> last out = length sampleStore)"
    by blast
  then have b2: "\<exists>out. fst (createManifestTransform sampleEnv ''/'' ''out'' ?w ?B ?E sampleStore) = Inr out \<and>
      out \<noteq> [] \<and> last out = length sampleStore"
    unfolding if_not_P[OF cb] .
  have b3: "map url (snd (createManifestTransform sampleEnv ''/'' ''out'' ?w ?B ?E sampleStore)) =
     [''prerendered/pages/a'', ''blog/__data.json'', ''about'', ''200'', ''robots.txt'', ''/200.html'']"
    by code_simp
  have sm: "opt_spa ?M = Some ?sm" by (simp add: opt_spa_def kitOptions_def)
  have tm: "truthy_spa (Some ?sm)" by (simp add: truthy_spa_def)
  have am: "opt_adapterFallback ?M = Some ''200.html''" by (simp add: opt_adapterFallback_def kitOptions_def)
  have nm: "''200.html'' \<noteq> []" by simp
  have fm: "fallbackEntry sampleEnv ''out'' ?sm ''200.html'' = Inr ?em"
    by (simp add: fallbackEntry_def fallbackName_def)
  note m = synthetic_fallback_url_verbatim[where base = "''/''" and wm = ?w and entries = ?E
      and h = sampleStore, OF sm tm am nm fm surjective_pairing]
  have cm: "truthy ?w \<and> ?w = Some (url ?em)" by (simp add: truthy_def)
  from m have "\<exists>out. fst (createManifestTransform sampleEnv ''/'' ''out'' ?w ?M ?E sampleStore) = Inr out \<and>
      (if truthy ?w \<and> ?w = Some (url ?em) then length sampleStore \<notin> set out
       else out \<noteq> [] \<and> last out = length sampleStore)"
    by blast
  then have m2: "\<exists>out. fst (createManifestTransform sampleEnv ''/'' ''out'' ?w ?M ?E sampleStore) = Inr out \<and>
      length sampleStore \<notin> set out"
    unfolding if_P[OF cm] .
  show ?thesis
    using fb b1 b2 b3 fm m2 by (intro conjI) assumption+
qed

end
